theory Spec2Isabelle
  imports Complex_Main
begin

section \<open>Python values, exceptions and effects\<close>

text \<open>
  The handler and the logger facade of \<^verbatim>\<open>example_smtp_logger.py\<close> take their
  arguments untyped (\<^verbatim>\<open>*args, **kwargs\<close>, attributes of a configuration object), so
  the values that reach them are modelled as a small universe of Python values. Floats are
  read as real numbers; NaN and the infinities are outside the model.
\<close>

datatype pyval =
    PyNone
  | PyBool bool
  | PyInt int
  | PyFloat real
  | PyStr string
  | PyList "pyval list"
  | PyTuple "pyval list"

text \<open>Truth value testing, as \<^verbatim>\<open>if not port\<close> and \<^verbatim>\<open>if self.username\<close> use it.\<close>

fun truthy :: "pyval \<Rightarrow> bool" where
  "truthy PyNone = False"
| "truthy (PyBool b) = b"
| "truthy (PyInt n) = (n \<noteq> 0)"
| "truthy (PyFloat x) = (x \<noteq> 0)"
| "truthy (PyStr s) = (s \<noteq> [])"
| "truthy (PyList xs) = (xs \<noteq> [])"
| "truthy (PyTuple xs) = (xs \<noteq> [])"

text \<open>
  The exceptions the code can meet. \<open>PlainException\<close> is the bare \<^verbatim>\<open>Exception\<close> the
  facade raises; \<open>KeyboardInterrupt\<close> and \<open>SystemExit\<close> derive from
  \<^verbatim>\<open>BaseException\<close> only, so \<^verbatim>\<open>except Exception\<close> does not catch them.
\<close>

datatype exn =
    TypeError
  | ValueError
  | AttributeError
  | RuntimeError
  | OSError
  | SMTPException
  | PlainException
  | KeyboardInterrupt
  | SystemExit

fun is_Exception :: "exn \<Rightarrow> bool" where
  "is_Exception KeyboardInterrupt = False"
| "is_Exception SystemExit = False"
| "is_Exception _ = True"

text \<open>Pure computations that may raise: \<open>Inl\<close> is the exception.\<close>

definition bind_exn :: "exn + 'a \<Rightarrow> ('a \<Rightarrow> exn + 'b) \<Rightarrow> exn + 'b" where
  "bind_exn m k = (case m of Inl e \<Rightarrow> Inl e | Inr x \<Rightarrow> k x)"

text \<open>Python's \<^verbatim>\<open>sep.join(parts)\<close> on strings.\<close>

fun join :: "string \<Rightarrow> string list \<Rightarrow> string" where
  "join sep [] = []"
| "join sep [x] = x"
| "join sep (x # y # ys) = x @ sep @ join sep (y # ys)"

text \<open>
  \<^verbatim>\<open>sep.join(v)\<close> on a value: a list or tuple must hold strings only, a string is
  iterated character by character, anything else is not iterable (\<^verbatim>\<open>TypeError\<close>).
\<close>

fun the_strs :: "pyval list \<Rightarrow> exn + string list" where
  "the_strs [] = Inr []"
| "the_strs (PyStr s # vs) = bind_exn (the_strs vs) (\<lambda>ss. Inr (s # ss))"
| "the_strs (_ # vs) = Inl TypeError"

fun str_join :: "string \<Rightarrow> pyval \<Rightarrow> exn + string" where
  "str_join sep (PyList vs) = bind_exn (the_strs vs) (\<lambda>ss. Inr (join sep ss))"
| "str_join sep (PyTuple vs) = bind_exn (the_strs vs) (\<lambda>ss. Inr (join sep ss))"
| "str_join sep (PyStr s) = Inr (join sep (map (\<lambda>c. [c]) s))"
| "str_join sep _ = Inl TypeError"

text \<open>Argument unpacking \<^verbatim>\<open>f(*v)\<close>: the value must be iterable.\<close>

fun star_args :: "pyval \<Rightarrow> exn + pyval list" where
  "star_args (PyList vs) = Inr vs"
| "star_args (PyTuple vs) = Inr vs"
| "star_args (PyStr s) = Inr (map (\<lambda>c. PyStr [c]) s)"
| "star_args _ = Inl TypeError"

text \<open>
  \<^verbatim>\<open>len(self.__buffer) >= self.__buffer_size\<close>: an integer compared with whatever
  \<^verbatim>\<open>buffer_size\<close> was given. Numbers compare (a bool is the integer 0 or 1); any
  other value raises \<^verbatim>\<open>TypeError\<close>.
\<close>

fun len_ge :: "nat \<Rightarrow> pyval \<Rightarrow> exn + bool" where
  "len_ge n (PyInt k) = Inr (k \<le> int n)"
| "len_ge n (PyBool b) = Inr ((if b then 1 else 0) \<le> n)"
| "len_ge n (PyFloat x) = Inr (x \<le> real n)"
| "len_ge n _ = Inl TypeError"

section \<open>Log records, the handler object and the outside world\<close>

record logrecord =
  levelno :: int
  message :: string

text \<open>
  The attributes \<^verbatim>\<open>logging.handlers.SMTPHandler.__init__\<close> sets (with those of
  \<^verbatim>\<open>logging.Handler\<close> that \<^verbatim>\<open>configure\<close> touches), extended by the two private
  attributes of \<^verbatim>\<open>InovatSMTPHandler\<close>. \<open>password\<close> is set only together with a
  \<open>username\<close> and is read only when the \<open>username\<close> is truthy.
\<close>

record smtp_handler =
  mailhost :: pyval
  mailport :: pyval
  username :: pyval
  password :: pyval
  fromaddr :: pyval
  toaddrs :: pyval
  subject :: pyval
  secure :: pyval
  timeout :: pyval
  level :: pyval
  formatter :: "(pyval \<times> pyval) option"

record handler = smtp_handler +
  buffer_size :: pyval
  buffer :: "logrecord list"

text \<open>
  The message \<^verbatim>\<open>__emit\<close> builds: the values assigned to its headers and, as
  \<open>content\<close>, the text handed to \<^verbatim>\<open>set_content\<close> (the library serialises that
  text with a final newline of its own).
\<close>

record email =
  hdr_from :: pyval
  hdr_to :: string
  hdr_subject :: pyval
  hdr_date :: nat
  content :: string

text \<open>The calls \<^verbatim>\<open>__emit\<close> makes on \<^verbatim>\<open>smtplib\<close>.\<close>

datatype smtp_call =
    SMTP_open pyval pyval pyval
  | SMTP_ehlo
  | SMTP_starttls "pyval list"
  | SMTP_login pyval pyval
  | SMTP_send_message email
  | SMTP_quit

text \<open>
  What the program does to its surroundings, as traces: the \<^verbatim>\<open>smtplib\<close> calls that
  completed, the buffer as it stood at each \<^verbatim>\<open>executor.submit\<close>, the records
  \<^verbatim>\<open>handleError\<close> was called with, the calls forwarded to a \<^verbatim>\<open>logging.Logger\<close>
  (logger name, level, message) and the handlers added to a logger.
\<close>

record world =
  smtp_log :: "smtp_call list"
  submitted :: "logrecord list list"
  handled :: "logrecord list"
  log_calls :: "(string \<times> pyval \<times> string) list"
  attached :: "(string \<times> handler) list"

text \<open>
  What the libraries decide: whether an \<^verbatim>\<open>smtplib\<close> call raises (given the calls
  made so far), whether the assignment of a value to a header of an
  \<^verbatim>\<open>EmailMessage\<close> raises (a text with a line break, a subject that is not a string),
  how a formatter renders a record, the clock, and whether
  \<^verbatim>\<open>logging.Formatter(fmt, datefmt)\<close> accepts its arguments.
\<close>

record env =
  smtp_fails :: "smtp_call list \<Rightarrow> smtp_call \<Rightarrow> exn option"
  header_fails :: "string \<Rightarrow> pyval \<Rightarrow> exn option"
  format_record :: "(pyval \<times> pyval) option \<Rightarrow> logrecord \<Rightarrow> string"
  localtime :: nat
  formatter_ok :: "pyval \<Rightarrow> pyval \<Rightarrow> exn option"

text \<open>Effectful computations: the world is threaded through, an exception ends the run.\<close>

type_synonym 'a io = "world \<Rightarrow> world \<times> (exn + 'a)"

definition io_return :: "'a \<Rightarrow> 'a io" where
  "io_return x w = (w, Inr x)"

definition io_raise :: "exn \<Rightarrow> 'a io" where
  "io_raise e w = (w, Inl e)"

definition io_bind :: "'a io \<Rightarrow> ('a \<Rightarrow> 'b io) \<Rightarrow> 'b io" where
  "io_bind m k w = (case m w of (w', Inl e) \<Rightarrow> (w', Inl e) | (w', Inr x) \<Rightarrow> k x w')"

definition io_then :: "unit io \<Rightarrow> 'b io \<Rightarrow> 'b io" where
  "io_then m k = io_bind m (\<lambda>_. k)"

definition io_lift :: "exn + 'a \<Rightarrow> 'a io" where
  "io_lift r w = (w, r)"

definition smtp_do :: "env \<Rightarrow> smtp_call \<Rightarrow> unit io" where
  "smtp_do E c w =
     (case smtp_fails E (smtp_log w) c of
        Some e \<Rightarrow> (w, Inl e)
      | None \<Rightarrow> (w\<lparr>smtp_log := smtp_log w @ [c]\<rparr>, Inr ()))"

text \<open>\<^verbatim>\<open>msg[name] = value\<close> on the message under construction.\<close>

definition header_set :: "env \<Rightarrow> string \<Rightarrow> pyval \<Rightarrow> unit io" where
  "header_set E name v w =
     (case header_fails E name v of Some e \<Rightarrow> (w, Inl e) | None \<Rightarrow> (w, Inr ()))"

section \<open>InovatSMTPHandler\<close>

subsection \<open>Construction\<close>

type_synonym kwargs = "string \<rightharpoonup> pyval"

definition kwargs_get :: "kwargs \<Rightarrow> string \<Rightarrow> pyval \<Rightarrow> pyval" where
  "kwargs_get kw k d = (case kw k of Some v \<Rightarrow> v | None \<Rightarrow> d)"

text \<open>\<^verbatim>\<open>args[i] if len(args) > i else kwargs.get(k, d)\<close>\<close>

definition arg_or_kwarg :: "pyval list \<Rightarrow> nat \<Rightarrow> kwargs \<Rightarrow> string \<Rightarrow> pyval \<Rightarrow> pyval" where
  "arg_or_kwarg args i kw k d = (if i < length args then args ! i else kwargs_get kw k d)"

record smtp_init_args =
  arg_mailhost :: pyval
  arg_fromaddr :: pyval
  arg_toaddrs :: pyval
  arg_subject :: pyval
  arg_credentials :: pyval
  arg_secure :: pyval
  arg_timeout :: pyval

text \<open>
  Lines 82 to 88 of \<^verbatim>\<open>__init__\<close>: the values handed to the base class. The host is
  looked up under the key \<^verbatim>\<open>"maihost"\<close>, as the source spells it.
\<close>

definition InovatSMTPHandler_init_args :: "pyval list \<Rightarrow> kwargs \<Rightarrow> smtp_init_args" where
  "InovatSMTPHandler_init_args args kw =
     \<lparr>arg_mailhost = arg_or_kwarg args 0 kw ''maihost'' (PyStr ''''),
      arg_fromaddr = arg_or_kwarg args 1 kw ''fromaddr'' (PyStr ''''),
      arg_toaddrs = arg_or_kwarg args 2 kw ''toaddrs'' (PyList []),
      arg_subject = arg_or_kwarg args 3 kw ''subject'' (PyStr ''''),
      arg_credentials = kwargs_get kw ''credentials'' PyNone,
      arg_secure = kwargs_get kw ''secure'' (PyBool False),
      arg_timeout = kwargs_get kw ''timeout'' (PyFloat 5)\<rparr>"

text \<open>
  \<^verbatim>\<open>logging.handlers.SMTPHandler.__init__\<close> of the standard library: a list or tuple
  given as host is unpacked into host and port, one given as credentials into user name and
  password (\<^verbatim>\<open>ValueError\<close> unless it has two items); a single recipient string
  becomes a one-item list. \<^verbatim>\<open>logging.Handler.__init__\<close> sets level 0 and no formatter.
\<close>

fun unpack2 :: "pyval list \<Rightarrow> exn + pyval \<times> pyval" where
  "unpack2 [a, b] = Inr (a, b)"
| "unpack2 _ = Inl ValueError"

definition SMTPHandler_init :: "smtp_init_args \<Rightarrow> exn + smtp_handler" where
  "SMTPHandler_init a =
     bind_exn (case arg_mailhost a of
                 PyList vs \<Rightarrow> unpack2 vs
               | PyTuple vs \<Rightarrow> unpack2 vs
               | _ \<Rightarrow> Inr (arg_mailhost a, PyNone)) (\<lambda>(host, port).
     bind_exn (case arg_credentials a of
                 PyList vs \<Rightarrow> unpack2 vs
               | PyTuple vs \<Rightarrow> unpack2 vs
               | _ \<Rightarrow> Inr (PyNone, PyNone)) (\<lambda>(user, pass).
     Inr \<lparr>mailhost = host, mailport = port, username = user, password = pass,
          fromaddr = arg_fromaddr a,
          toaddrs = (case arg_toaddrs a of PyStr s \<Rightarrow> PyList [PyStr s] | _ \<Rightarrow> arg_toaddrs a),
          subject = arg_subject a, secure = arg_secure a, timeout = arg_timeout a,
          level = PyInt 0, formatter = None\<rparr>))"

text \<open>
  An item assignment whose target is a class object, as in
  \<^verbatim>\<open>list[logging.LogRecord] = []\<close>: the metaclass \<^verbatim>\<open>type\<close> has no
  \<^verbatim>\<open>__setitem__\<close>, so the statement raises \<^verbatim>\<open>TypeError\<close> whatever the class,
  the key and the value are.
\<close>

definition class_setitem :: "string \<Rightarrow> exn + unit" where
  "class_setitem cls = Inl TypeError"

text \<open>
  \<^verbatim>\<open>InovatSMTPHandler.__init__\<close>. Line 99 is the chained assignment
  \<^verbatim>\<open>self.__buffer = list[logging.LogRecord] = []\<close>: the empty list is assigned to the
  targets from left to right, first to the attribute, then to the subscription of
  \<^verbatim>\<open>list\<close>. The executor and the lock (lines 100 to 103) carry no data of the model.
\<close>

definition InovatSMTPHandler_init :: "pyval list \<Rightarrow> kwargs \<Rightarrow> exn + handler" where
  "InovatSMTPHandler_init args kw =
     bind_exn (SMTPHandler_init (InovatSMTPHandler_init_args args kw)) (\<lambda>base.
     let self = smtp_handler.extend base
                  \<lparr>buffer_size = kwargs_get kw ''buffer_size'' (PyInt 10), buffer = []\<rparr>
     in bind_exn (class_setitem ''list'') (\<lambda>_. Inr self))"

subsection \<open>Delivery: the private method \<^verbatim>\<open>__emit\<close>\<close>

text \<open>
  Lines 115 to 139. The connection is opened first; the headers are assigned in the order
  of the source, each assignment being one that the library may refuse; the body is built
  from the buffer as it stands; the handshake and the login happen only for a truthy user
  name.
\<close>

definition private_emit :: "env \<Rightarrow> handler \<Rightarrow> unit io" where
  "private_emit E self =
     (let port = (if \<not> truthy (mailport self) then PyInt 25 else mailport self) in
      io_then (smtp_do E (SMTP_open (mailhost self) port (timeout self)))
     (io_then (header_set E ''From'' (fromaddr self))
     (io_bind (io_lift (str_join '','' (toaddrs self))) (\<lambda>to.
      io_then (header_set E ''To'' (PyStr to))
     (io_then (header_set E ''Subject'' (subject self))
     (let msg = \<lparr>hdr_from = fromaddr self, hdr_to = to, hdr_subject = subject self,
                 hdr_date = localtime E,
                 content = join [CHR 0x0A]
                             (map (format_record E (formatter self)) (buffer self))\<rparr>
      in io_then
           (if truthy (username self) then
              io_then
                (if secure self \<noteq> PyNone then
                   io_then (smtp_do E SMTP_ehlo)
                  (io_bind (io_lift (star_args (secure self))) (\<lambda>a.
                   io_then (smtp_do E (SMTP_starttls a)) (smtp_do E SMTP_ehlo)))
                 else io_return ())
                (smtp_do E (SMTP_login (username self) (password self)))
            else io_return ())
          (io_then (smtp_do E (SMTP_send_message msg)) (smtp_do E SMTP_quit))))))))"

subsection \<open>Buffering: \<^verbatim>\<open>emit\<close>\<close>

text \<open>
  \<^verbatim>\<open>logging.Handler.handleError(record)\<close> reports to the standard error stream and
  returns; here it is the trace of the records it was called with.
\<close>

definition Handler_handleError :: "logrecord \<Rightarrow> world \<Rightarrow> world" where
  "Handler_handleError r w = w\<lparr>handled := handled w @ [r]\<rparr>"

text \<open>
  \<^verbatim>\<open>executor.submit(fn, *args).result()\<close>: a worker runs \<^verbatim>\<open>fn(*args)\<close>, and the
  caller waits for its value or gets its exception raised again. A bound method that takes
  no parameter besides \<^verbatim>\<open>self\<close> raises \<^verbatim>\<open>TypeError\<close> when it is called with
  positional arguments.
\<close>

definition submit_result :: "('a list \<Rightarrow> 'r io) \<Rightarrow> 'a list \<Rightarrow> 'r io" where
  "submit_result fn args = fn args"

definition bound_method :: "('s \<Rightarrow> 'r io) \<Rightarrow> 's \<Rightarrow> 's list \<Rightarrow> 'r io" where
  "bound_method f self args = (if args = [] then f self else io_raise TypeError)"

text \<open>Line 110: \<^verbatim>\<open>self.__executor.submit(self.__emit, self).result()\<close>.\<close>

definition dispatch_flush :: "env \<Rightarrow> handler \<Rightarrow> unit io" where
  "dispatch_flush E self = submit_result (bound_method (private_emit E) self) [self]"

text \<open>
  The body of the \<^verbatim>\<open>try\<close> (lines 107 to 111), for any behaviour \<open>D\<close> of the
  dispatched flush: append, compare, and at the threshold dispatch and then reset the
  buffer. The handler is returned as the statement reached left it.
\<close>

definition emit_locked ::
  "(handler \<Rightarrow> unit io) \<Rightarrow> handler \<Rightarrow> logrecord \<Rightarrow> world \<Rightarrow> handler \<times> world \<times> (exn + unit)" where
  "emit_locked D self r w =
     (let self1 = self\<lparr>buffer := buffer self @ [r]\<rparr> in
      case len_ge (length (buffer self1)) (buffer_size self1) of
        Inl e \<Rightarrow> (self1, w, Inl e)
      | Inr reached \<Rightarrow>
          if reached then
            (case D self1 (w\<lparr>submitted := submitted w @ [buffer self1]\<rparr>) of
               (w', Inl e) \<Rightarrow> (self1, w', Inl e)
             | (w', Inr _) \<Rightarrow> (self1\<lparr>buffer := []\<rparr>, w', Inr ()))
          else (self1, w, Inr ()))"

text \<open>Lines 106 to 113: the \<^verbatim>\<open>try\<close> with its \<^verbatim>\<open>except Exception\<close>.\<close>

definition emit_with ::
  "(handler \<Rightarrow> unit io) \<Rightarrow> handler \<Rightarrow> logrecord \<Rightarrow> world \<Rightarrow> handler \<times> world \<times> (exn + unit)" where
  "emit_with D self r w =
     (case emit_locked D self r w of
        (self', w', Inl e) \<Rightarrow>
          if is_Exception e then (self', Handler_handleError r w', Inr ())
          else (self', w', Inl e)
      | (self', w', Inr u) \<Rightarrow> (self', w', Inr u))"

definition emit :: "env \<Rightarrow> handler \<Rightarrow> logrecord \<Rightarrow> world \<Rightarrow> handler \<times> world \<times> (exn + unit)" where
  "emit E = emit_with (dispatch_flush E)"

text \<open>A run of \<^verbatim>\<open>emit\<close> calls, one per record, ended by the first call that raises.\<close>

fun emit_all ::
  "(handler \<Rightarrow> unit io) \<Rightarrow> handler \<Rightarrow> logrecord list \<Rightarrow> world \<Rightarrow> handler \<times> world \<times> (exn + unit)" where
  "emit_all D self [] w = (self, w, Inr ())"
| "emit_all D self (r # rs) w =
     (case emit_with D self r w of
        (self', w', Inl e) \<Rightarrow> (self', w', Inl e)
      | (self', w', Inr _) \<Rightarrow> emit_all D self' rs w')"

section \<open>The logger facade\<close>

text \<open>
  The configuration object is read by attribute only; it is the map from the attributes it
  has to their values (the classes of lines 12 to 17 declare none). \<^verbatim>\<open>_logger\<close> is
  \<^verbatim>\<open>None\<close> or the logger of a name.
\<close>

type_synonym config = "string \<rightharpoonup> pyval"

record base_logger =
  configuration_attr :: config
  logger_attr :: "string option"

definition getattr :: "config \<Rightarrow> string \<Rightarrow> exn + pyval" where
  "getattr c k = (case c k of Some v \<Rightarrow> Inr v | None \<Rightarrow> Inl AttributeError)"

definition BaseLogger_init :: "config \<Rightarrow> base_logger" where
  "BaseLogger_init c = \<lparr>configuration_attr = c, logger_attr = None\<rparr>"

definition configured :: "base_logger \<Rightarrow> bool" where
  "configured self = (logger_attr self \<noteq> None)"

text \<open>
  The standard library's logger: \<^verbatim>\<open>getLogger\<close> gives the root logger for a falsy
  name and refuses a name that is not a string; \<^verbatim>\<open>Logger.log\<close> refuses a level that
  is not an integer; the level methods take the message at their fixed level. A call that
  is accepted is recorded in the world.
\<close>

definition logging_getLogger :: "pyval \<Rightarrow> exn + string" where
  "logging_getLogger name =
     (if \<not> truthy name then Inr ''root''
      else case name of PyStr s \<Rightarrow> Inr s | _ \<Rightarrow> Inl TypeError)"










text \<open>The property \<^verbatim>\<open>logger\<close> (lines 31 to 35).\<close>

definition BaseLogger_logger :: "base_logger \<Rightarrow> exn + string option" where
  "BaseLogger_logger self =
     (if \<not> configured self then Inl PlainException else Inr (logger_attr self))"

subsection \<open>\<^verbatim>\<open>SMTPLogger.configure\<close>\<close>

text \<open>
  Of the standard library: \<^verbatim>\<open>logging.Formatter(fmt, datefmt)\<close> keeps its two arguments
  when it accepts them; \<^verbatim>\<open>Handler.setLevel\<close> takes an integer or the name of a level.
\<close>

definition Formatter_new :: "env \<Rightarrow> pyval \<Rightarrow> pyval \<Rightarrow> exn + pyval \<times> pyval" where
  "Formatter_new E fmt datefmt =
     (case formatter_ok E fmt datefmt of Some e \<Rightarrow> Inl e | None \<Rightarrow> Inr (fmt, datefmt))"

definition nameToLevel :: "string \<rightharpoonup> int" where
  "nameToLevel =
     [''CRITICAL'' \<mapsto> 50, ''FATAL'' \<mapsto> 50, ''ERROR'' \<mapsto> 40, ''WARN'' \<mapsto> 30,
      ''WARNING'' \<mapsto> 30, ''INFO'' \<mapsto> 20, ''DEBUG'' \<mapsto> 10, ''NOTSET'' \<mapsto> 0]"

definition checkLevel :: "pyval \<Rightarrow> exn + pyval" where
  "checkLevel lvl =
     (case lvl of
        PyInt n \<Rightarrow> Inr lvl
      | PyBool b \<Rightarrow> Inr lvl
      | PyStr s \<Rightarrow> (case nameToLevel s of None \<Rightarrow> Inl ValueError | Some n \<Rightarrow> Inr (PyInt n))
      | _ \<Rightarrow> Inl TypeError)"

definition Handler_setLevel :: "handler \<Rightarrow> pyval \<Rightarrow> exn + handler" where
  "Handler_setLevel hdlr lvl = bind_exn (checkLevel lvl) (\<lambda>rv. Inr (hdlr\<lparr>level := rv\<rparr>))"

text \<open>
  Lines 151 to 165: the formatter, the handler built from the attributes of the
  configuration (read from left to right, all by keyword), its level and its formatter.
\<close>

definition configure_handler :: "env \<Rightarrow> config \<Rightarrow> exn + handler" where
  "configure_handler E c =
     bind_exn (getattr c ''format'') (\<lambda>fmt.
     bind_exn (getattr c ''date_format'') (\<lambda>datefmt.
     bind_exn (Formatter_new E fmt datefmt) (\<lambda>logger_format.
     bind_exn (getattr c ''mailhost'') (\<lambda>mailhost'.
     bind_exn (getattr c ''fromaddr'') (\<lambda>fromaddr'.
     bind_exn (getattr c ''toaddrs'') (\<lambda>toaddrs'.
     bind_exn (getattr c ''subject'') (\<lambda>subject'.
     bind_exn (getattr c ''credentials'') (\<lambda>credentials'.
     bind_exn (getattr c ''secure'') (\<lambda>secure'.
     bind_exn (getattr c ''timeout'') (\<lambda>timeout'.
     bind_exn (getattr c ''buffer_size'') (\<lambda>buffer_size'.
     bind_exn (InovatSMTPHandler_init []
                 [''mailhost'' \<mapsto> mailhost', ''fromaddr'' \<mapsto> fromaddr',
                  ''toaddrs'' \<mapsto> toaddrs', ''subject'' \<mapsto> subject',
                  ''credentials'' \<mapsto> credentials', ''secure'' \<mapsto> secure',
                  ''timeout'' \<mapsto> timeout', ''buffer_size'' \<mapsto> buffer_size'])
       (\<lambda>logger_handler.
     bind_exn (getattr c ''log_level'') (\<lambda>log_level'.
     bind_exn (Handler_setLevel logger_handler log_level') (\<lambda>logger_handler1.
     Inr (logger_handler1\<lparr>formatter := Some logger_format\<rparr>)))))))))))))))"

text \<open>
  Lines 148 to 166, the body of the \<^verbatim>\<open>try\<close>: \<^verbatim>\<open>self._logger\<close> is assigned as soon
  as \<^verbatim>\<open>getLogger\<close> has returned, before the handler is built; the handler is added to
  that logger last.
\<close>

definition configure_try ::
  "env \<Rightarrow> base_logger \<Rightarrow> world \<Rightarrow> base_logger \<times> world \<times> (exn + unit)" where
  "configure_try E self w =
     (case bind_exn (getattr (configuration_attr self) ''name'') logging_getLogger of
        Inl e \<Rightarrow> (self, w, Inl e)
      | Inr lg \<Rightarrow>
          (let self1 = self\<lparr>logger_attr := Some lg\<rparr> in
           case configure_handler E (configuration_attr self) of
             Inl e \<Rightarrow> (self1, w, Inl e)
           | Inr hdlr \<Rightarrow> (self1, w\<lparr>attached := attached w @ [(lg, hdlr)]\<rparr>, Inr ())))"

text \<open>Lines 146 to 168: \<^verbatim>\<open>except Exception: raise Exception\<close> around that body.\<close>

definition SMTPLogger_configure ::
  "env \<Rightarrow> base_logger \<Rightarrow> world \<Rightarrow> base_logger \<times> world \<times> (exn + unit)" where
  "SMTPLogger_configure E self w =
     (case configure_try E self w of
        (self', w', Inl e) \<Rightarrow> (self', w', Inl (if is_Exception e then PlainException else e))
      | (self', w', Inr u) \<Rightarrow> (self', w', Inr u))"

section \<open>Reading a result, and sample inputs\<close>

text \<open>
  A call returns the object as it left it, the world as it left it, and how it ended.
\<close>

definition after_self :: "'s \<times> world \<times> (exn + unit) \<Rightarrow> 's" where
  "after_self x = fst x"

definition after_world :: "'s \<times> world \<times> (exn + unit) \<Rightarrow> world" where
  "after_world x = fst (snd x)"

definition outcome :: "'s \<times> world \<times> (exn + unit) \<Rightarrow> exn + unit" where
  "outcome x = snd (snd x)"

text \<open>
  A computation that leaves the traces of submissions and of handled errors alone, as
  \<^verbatim>\<open>__emit\<close> does: it only talks to \<^verbatim>\<open>smtplib\<close>.
\<close>

definition io_frame :: "'a io \<Rightarrow> bool" where
  "io_frame m = (\<forall>v. submitted (fst (m v)) = submitted v \<and> handled (fst (m v)) = handled v)"

definition keeps_traces :: "(handler \<Rightarrow> unit io) \<Rightarrow> bool" where
  "keeps_traces D = (\<forall>h. io_frame (D h))"

text \<open>The messages among the \<^verbatim>\<open>smtplib\<close> calls of a trace, in order.\<close>

fun sent :: "smtp_call list \<Rightarrow> email list" where
  "sent [] = []"
| "sent (SMTP_send_message m # cs) = m # sent cs"
| "sent (_ # cs) = sent cs"

text \<open>
  Two ways a computation can treat the messages of the trace: it sends none, or it sends at
  most the one message \<open>m\<close>, and sends it whenever it returns.
\<close>

definition quiet :: "'a io \<Rightarrow> bool" where
  "quiet c = (\<forall>v. sent (smtp_log (fst (c v))) = sent (smtp_log v))"

definition one_send :: "email \<Rightarrow> unit io \<Rightarrow> bool" where
  "one_send m c =
     (\<forall>v. (sent (smtp_log (fst (c v))) = sent (smtp_log v) \<and> snd (c v) \<noteq> Inr ()) \<or>
          sent (smtp_log (fst (c v))) = sent (smtp_log v) @ [m])"

text \<open>
  A computation that sends at most one message, whose content is \<open>b\<close>, and does not
  return without having sent it.
\<close>

definition sends_body :: "string \<Rightarrow> unit io \<Rightarrow> bool" where
  "sends_body b c =
     (\<forall>v. (sent (smtp_log (fst (c v))) = sent (smtp_log v) \<and> snd (c v) \<noteq> Inr ()) \<or>
          (\<exists>m. content m = b \<and> sent (smtp_log (fst (c v))) = sent (smtp_log v) @ [m]))"

text \<open>
  Inputs for the worked examples: a mail server and a message library that accept
  everything, a formatter that prints the message, a handler with a given capacity and an empty buffer, a world in which
  nothing has happened yet, and a configuration object with every attribute
  \<^verbatim>\<open>configure\<close> reads.
\<close>

definition sample_env :: env where
  "sample_env =
     \<lparr>smtp_fails = (\<lambda>_ _. None), header_fails = (\<lambda>_ _. None),
      format_record = (\<lambda>_ r. message r), localtime = 0, formatter_ok = (\<lambda>_ _. None)\<rparr>"

definition sample_handler :: "pyval \<Rightarrow> handler" where
  "sample_handler c =
     \<lparr>mailhost = PyStr ''mx.example.com'', mailport = PyNone, username = PyNone,
      password = PyNone, fromaddr = PyStr ''app@example.com'',
      toaddrs = PyList [PyStr ''ops@example.com''], subject = PyStr ''log'',
      secure = PyBool False, timeout = PyFloat 5, level = PyInt 0, formatter = None,
      buffer_size = c, buffer = []\<rparr>"

definition empty_world :: world where
  "empty_world = \<lparr>smtp_log = [], submitted = [], handled = [], log_calls = [], attached = []\<rparr>"

definition rec_of :: "string \<Rightarrow> logrecord" where
  "rec_of s = \<lparr>levelno = 20, message = s\<rparr>"

definition sample_config :: "int \<Rightarrow> config" where
  "sample_config c =
     [''name'' \<mapsto> PyStr ''app'', ''format'' \<mapsto> PyStr ''%(message)s'',
      ''date_format'' \<mapsto> PyNone, ''mailhost'' \<mapsto> PyStr ''mx.example.com'',
      ''fromaddr'' \<mapsto> PyStr ''app@example.com'',
      ''toaddrs'' \<mapsto> PyList [PyStr ''ops@example.com''], ''subject'' \<mapsto> PyStr ''log'',
      ''credentials'' \<mapsto> PyNone, ''secure'' \<mapsto> PyNone, ''timeout'' \<mapsto> PyFloat 5,
      ''buffer_size'' \<mapsto> PyInt c, ''log_level'' \<mapsto> PyInt 20]"

section \<open>Properties of \<^verbatim>\<open>emit\<close>\<close>

lemma result_simps [simp]:
  "after_self (a, b, c) = a" "after_world (a, b, c) = b" "outcome (a, b, c) = c"
  by (simp_all add: after_self_def after_world_def outcome_def)

lemma dispatch_flush_raises: "dispatch_flush E self w = (w, Inl TypeError)"
  by (simp add: dispatch_flush_def submit_result_def bound_method_def io_raise_def)

lemma len_ge_error: "len_ge n v = Inl e \<Longrightarrow> e = TypeError"
  by (cases v) auto

lemma len_ge_mono: "len_ge n v = Inr True \<Longrightarrow> len_ge (Suc n) v = Inr True"
  by (cases v) (auto split: if_splits)

lemma emit_locked_error:
  "len_ge (Suc (length (buffer self))) (buffer_size self) = Inl e \<Longrightarrow>
   emit_locked D self r w = (self\<lparr>buffer := buffer self @ [r]\<rparr>, w, Inl e)"
  by (simp add: emit_locked_def)

lemma emit_locked_below:
  "len_ge (Suc (length (buffer self))) (buffer_size self) = Inr False \<Longrightarrow>
   emit_locked D self r w = (self\<lparr>buffer := buffer self @ [r]\<rparr>, w, Inr ())"
  by (simp add: emit_locked_def)

lemma emit_locked_reached:
  "len_ge (Suc (length (buffer self))) (buffer_size self) = Inr True \<Longrightarrow>
   emit_locked D self r w =
     (case D (self\<lparr>buffer := buffer self @ [r]\<rparr>)
             (w\<lparr>submitted := submitted w @ [buffer self @ [r]]\<rparr>) of
        (w', Inl e) \<Rightarrow> (self\<lparr>buffer := buffer self @ [r]\<rparr>, w', Inl e)
      | (w', Inr u) \<Rightarrow> (self\<lparr>buffer := []\<rparr>, w', Inr ()))"
  by (simp add: emit_locked_def split: prod.splits sum.splits)

lemma emit_with_caught:
  "emit_locked D self r w = (self', w', Inl e) \<Longrightarrow> is_Exception e \<Longrightarrow>
   emit_with D self r w = (self', Handler_handleError r w', Inr ())"
  by (simp add: emit_with_def)

lemma emit_with_normal:
  "emit_locked D self r w = (self', w', Inr u) \<Longrightarrow> emit_with D self r w = (self', w', Inr u)"
  by (simp add: emit_with_def)

lemma emit_locked_raises_cases:
  assumes "emit_locked D self r w = (self', w', Inl e)"
  shows "e = TypeError \<or>
         (\<exists>h v. D h v = (w', Inl e))"
proof (cases "len_ge (Suc (length (buffer self))) (buffer_size self)")
  case (Inl e')
  with assms show ?thesis by (auto simp: emit_locked_error dest: len_ge_error)
next
  case (Inr b)
  show ?thesis
  proof (cases b)
    case True
    with Inr assms show ?thesis
      by (auto simp: emit_locked_reached split: prod.splits sum.splits)
  next
    case False
    with Inr assms show ?thesis by (simp add: emit_locked_below)
  qed
qed

lemma emit_with_outcome:
  assumes "\<And>h v e. snd (D h v) = Inl e \<Longrightarrow> is_Exception e"
  shows "outcome (emit_with D self r w) = Inr ()"
proof -
  obtain self' w' res where L: "emit_locked D self r w = (self', w', res)"
    by (cases "emit_locked D self r w")
  show ?thesis
  proof (cases res)
    case (Inl e)
    from L Inl emit_locked_raises_cases[of D self r w self' w' e]
    have "e = TypeError \<or> (\<exists>h v. D h v = (w', Inl e))" by simp
    then have "is_Exception e"
    proof
      assume "e = TypeError" then show ?thesis by simp
    next
      assume "\<exists>h v. D h v = (w', Inl e)"
      then obtain h v where "D h v = (w', Inl e)" by blast
      then have "snd (D h v) = Inl e" by simp
      then show ?thesis by (rule assms)
    qed
    with L Inl show ?thesis by (simp add: emit_with_caught)
  next
    case (Inr u)
    with L show ?thesis by (simp add: emit_with_normal)
  qed
qed

lemma emit_with_handled:
  "is_Exception e \<Longrightarrow> outcome (emit_locked D self r w) = Inl e \<Longrightarrow>
   handled (after_world (emit_with D self r w)) =
     handled (after_world (emit_locked D self r w)) @ [r]"
  by (cases "emit_locked D self r w")
     (auto simp: emit_with_def Handler_handleError_def)

lemma emit_locked_actual:
  "emit_locked (dispatch_flush E) self r w =
     (self\<lparr>buffer := buffer self @ [r]\<rparr>,
      (if len_ge (Suc (length (buffer self))) (buffer_size self) = Inr True
       then w\<lparr>submitted := submitted w @ [buffer self @ [r]]\<rparr> else w),
      (if len_ge (Suc (length (buffer self))) (buffer_size self) = Inr False
       then Inr () else Inl TypeError))"
proof (cases "len_ge (Suc (length (buffer self))) (buffer_size self)")
  case (Inl e)
  then show ?thesis by (simp add: emit_locked_error len_ge_error)
next
  case (Inr b)
  then show ?thesis
    by (cases b) (simp_all add: emit_locked_below emit_locked_reached dispatch_flush_raises)
qed

text \<open>
  Claim C1. A call of \<^verbatim>\<open>emit\<close> returns normally for every handler, record and
  world, and \<^verbatim>\<open>handleError\<close> is called with the record exactly when the body of the
  \<^verbatim>\<open>try\<close> raised. The same holds for any behaviour of the dispatched flush whose
  failures are instances of \<^verbatim>\<open>Exception\<close>, the class the handler catches.
\<close>

theorem emit_never_raises:
  "outcome (emit E self r w) = Inr () \<and>
   handled (after_world (emit E self r w)) =
     (case outcome (emit_locked (dispatch_flush E) self r w) of
        Inl e \<Rightarrow> handled w @ [r]
      | Inr u \<Rightarrow> handled w) \<and>
   ((\<forall>h v e. snd (D h v) = Inl e \<longrightarrow> is_Exception e) \<longrightarrow>
      outcome (emit_with D self r w) = Inr () \<and>
      (\<forall>e. outcome (emit_locked D self r w) = Inl e \<longrightarrow>
           handled (after_world (emit_with D self r w)) =
             handled (after_world (emit_locked D self r w)) @ [r]))"
proof (intro conjI impI allI)
  show "outcome (emit E self r w) = Inr ()"
    unfolding emit_def by (rule emit_with_outcome) (simp add: dispatch_flush_raises)
next
  show "handled (after_world (emit E self r w)) =
     (case outcome (emit_locked (dispatch_flush E) self r w) of
        Inl e \<Rightarrow> handled w @ [r]
      | Inr u \<Rightarrow> handled w)"
    by (simp add: emit_def emit_with_def emit_locked_actual Handler_handleError_def)
next
  assume "\<forall>h v e. snd (D h v) = Inl e \<longrightarrow> is_Exception e"
  then show "outcome (emit_with D self r w) = Inr ()"
    by (intro emit_with_outcome) blast
next
  fix e
  assume D: "\<forall>h v e. snd (D h v) = Inl e \<longrightarrow> is_Exception e"
    and e: "outcome (emit_locked D self r w) = Inl e"
  obtain self' w' where L: "emit_locked D self r w = (self', w', Inl e)"
    using e by (cases "emit_locked D self r w") auto
  from emit_locked_raises_cases[OF L] D have "is_Exception e"
    by (metis is_Exception.simps(3) snd_conv)
  then show "handled (after_world (emit_with D self r w)) =
             handled (after_world (emit_locked D self r w)) @ [r]"
    using e by (rule emit_with_handled)
qed

theorem emit_never_raises_witness:
  "outcome (emit sample_env (sample_handler (PyInt 1)) (rec_of ''a'') empty_world) = Inr () \<and>
   handled (after_world (emit sample_env (sample_handler (PyInt 1)) (rec_of ''a'') empty_world))
     = [rec_of ''a''] \<and>
   outcome (emit_with (dispatch_flush sample_env) (sample_handler (PyInt 1)) (rec_of ''a'')
              empty_world) = Inr ()"
  using emit_never_raises [of sample_env "sample_handler (PyInt 1)" "rec_of ''a''" empty_world
      "dispatch_flush sample_env"]
  by (simp add: dispatch_flush_raises emit_locked_actual sample_handler_def empty_world_def)

lemma emit_with_buffer:
  "buffer (after_self (emit_with D self r w)) = buffer (after_self (emit_locked D self r w))"
  by (cases "emit_locked D self r w") (auto simp: emit_with_def split: sum.splits)

lemma emit_locked_buffer:
  "buffer (after_self (emit_locked D self r w)) =
     (if len_ge (Suc (length (buffer self))) (buffer_size self) = Inr True \<and>
         snd (D (self\<lparr>buffer := buffer self @ [r]\<rparr>)
                (w\<lparr>submitted := submitted w @ [buffer self @ [r]]\<rparr>)) = Inr ()
      then [] else buffer self @ [r])"
proof (cases "len_ge (Suc (length (buffer self))) (buffer_size self)")
  case (Inl e)
  then show ?thesis by (simp add: emit_locked_error)
next
  case (Inr b)
  then show ?thesis
    by (cases b) (auto simp: emit_locked_below emit_locked_reached split: prod.splits sum.splits)
qed

lemma emit_with_rest:
  "after_self (emit_with D self r w) = self\<lparr>buffer := buffer (after_self (emit_with D self r w))\<rparr>"
proof (cases "len_ge (Suc (length (buffer self))) (buffer_size self)")
  case (Inl e)
  then show ?thesis by (simp add: emit_with_def emit_locked_error)
next
  case (Inr b)
  then show ?thesis
    by (cases b)
       (auto simp: emit_with_def emit_locked_below emit_locked_reached split: prod.splits sum.splits)
qed

lemma private_emit_sample:
  "private_emit sample_env (sample_handler c\<lparr>buffer := b\<rparr>) v =
     (v\<lparr>smtp_log := smtp_log v @
         [SMTP_open (PyStr ''mx.example.com'') (PyInt 25) (PyFloat 5),
          SMTP_send_message
            \<lparr>hdr_from = PyStr ''app@example.com'', hdr_to = ''ops@example.com'',
             hdr_subject = PyStr ''log'', hdr_date = 0,
             content = join [CHR 0x0A] (map message b)\<rparr>,
          SMTP_quit]\<rparr>, Inr ())"
  by (simp add: private_emit_def sample_env_def sample_handler_def io_then_def io_bind_def
        io_lift_def io_return_def smtp_do_def header_set_def bind_exn_def)

lemma sample_handler_fields [simp]:
  "buffer (sample_handler c) = []" "buffer_size (sample_handler c) = c"
  by (simp_all add: sample_handler_def)

lemma empty_world_fields [simp]:
  "submitted empty_world = []" "handled empty_world = []" "smtp_log empty_world = []"
  "log_calls empty_world = []" "attached empty_world = []"
  by (simp_all add: empty_world_def)

lemma emit_actual:
  "emit E self r w =
     (self\<lparr>buffer := buffer self @ [r]\<rparr>,
      (if len_ge (Suc (length (buffer self))) (buffer_size self) = Inr False then w
       else Handler_handleError r
              (if len_ge (Suc (length (buffer self))) (buffer_size self) = Inr True
               then w\<lparr>submitted := submitted w @ [buffer self @ [r]]\<rparr> else w)),
      Inr ())"
  by (simp add: emit_def emit_with_def emit_locked_actual)

lemma io_frame_D:
  "keeps_traces D \<Longrightarrow> submitted (fst (D h v)) = submitted v \<and> handled (fst (D h v)) = handled v"
  by (simp add: keeps_traces_def io_frame_def)

lemma emit_with_traces:
  assumes "keeps_traces D"
  shows "submitted (after_world (emit_with D self r w)) =
           (if len_ge (Suc (length (buffer self))) (buffer_size self) = Inr True
            then submitted w @ [buffer self @ [r]] else submitted w)"
proof (cases "len_ge (Suc (length (buffer self))) (buffer_size self)")
  case (Inl e)
  then show ?thesis
    by (simp add: emit_with_def emit_locked_error Handler_handleError_def)
next
  case (Inr b)
  show ?thesis
  proof (cases b)
    case False
    with Inr show ?thesis by (simp add: emit_with_def emit_locked_below)
  next
    case True
    let ?h = "self\<lparr>buffer := buffer self @ [r]\<rparr>"
    let ?v = "w\<lparr>submitted := submitted w @ [buffer self @ [r]]\<rparr>"
    from io_frame_D[OF assms, of ?h ?v]
    have "submitted (fst (D ?h ?v)) = submitted w @ [buffer self @ [r]]" by simp
    with Inr True show ?thesis
      by (cases "D ?h ?v")
         (auto simp: emit_with_def emit_locked_reached Handler_handleError_def split: sum.splits)
  qed
qed

text \<open>
  Claim C7. After a call of \<^verbatim>\<open>emit\<close> the buffer is empty exactly when the threshold
  was reached and the dispatched flush returned; otherwise it holds the old records and the
  new one. When the flush raised, the next call of \<^verbatim>\<open>emit\<close> reaches the threshold
  again and dispatches a flush on a buffer that still holds every record of the failed batch,
  followed by the new record.
\<close>

theorem buffer_reset_only_after_completed_flush:
  "(buffer (after_self (emit_with D self r w)) = []) =
     (len_ge (Suc (length (buffer self))) (buffer_size self) = Inr True \<and>
      snd (D (self\<lparr>buffer := buffer self @ [r]\<rparr>)
             (w\<lparr>submitted := submitted w @ [buffer self @ [r]]\<rparr>)) = Inr ()) \<and>
   (buffer (after_self (emit_with D self r w)) \<noteq> [] \<longrightarrow>
      buffer (after_self (emit_with D self r w)) = buffer self @ [r]) \<and>
   (len_ge (Suc (length (buffer self))) (buffer_size self) = Inr True \<and>
    snd (D (self\<lparr>buffer := buffer self @ [r]\<rparr>)
           (w\<lparr>submitted := submitted w @ [buffer self @ [r]]\<rparr>)) = Inl e \<longrightarrow>
      emit_locked D (after_self (emit_with D self r w)) r' w2 =
        (case D (self\<lparr>buffer := buffer self @ [r, r']\<rparr>)
                (w2\<lparr>submitted := submitted w2 @ [buffer self @ [r, r']]\<rparr>) of
           (w3, Inl e') \<Rightarrow> (self\<lparr>buffer := buffer self @ [r, r']\<rparr>, w3, Inl e')
         | (w3, Inr u) \<Rightarrow> (self\<lparr>buffer := []\<rparr>, w3, Inr ())))"
proof (intro conjI impI)
  show "(buffer (after_self (emit_with D self r w)) = []) =
     (len_ge (Suc (length (buffer self))) (buffer_size self) = Inr True \<and>
      snd (D (self\<lparr>buffer := buffer self @ [r]\<rparr>)
             (w\<lparr>submitted := submitted w @ [buffer self @ [r]]\<rparr>)) = Inr ())"
    by (simp add: emit_with_buffer emit_locked_buffer)
next
  assume "buffer (after_self (emit_with D self r w)) \<noteq> []"
  then show "buffer (after_self (emit_with D self r w)) = buffer self @ [r]"
    by (simp add: emit_with_buffer emit_locked_buffer split: if_splits)
next
  assume A: "len_ge (Suc (length (buffer self))) (buffer_size self) = Inr True \<and>
    snd (D (self\<lparr>buffer := buffer self @ [r]\<rparr>)
           (w\<lparr>submitted := submitted w @ [buffer self @ [r]]\<rparr>)) = Inl e"
  then have b: "buffer (after_self (emit_with D self r w)) = buffer self @ [r]"
    by (simp add: emit_with_buffer emit_locked_buffer)
  have s: "after_self (emit_with D self r w) = self\<lparr>buffer := buffer self @ [r]\<rparr>"
    using emit_with_rest[of D self r w] b by simp
  from A have "len_ge (Suc (Suc (length (buffer self)))) (buffer_size self) = Inr True"
    by (simp add: len_ge_mono)
  then show "emit_locked D (after_self (emit_with D self r w)) r' w2 =
        (case D (self\<lparr>buffer := buffer self @ [r, r']\<rparr>)
                (w2\<lparr>submitted := submitted w2 @ [buffer self @ [r, r']]\<rparr>) of
           (w3, Inl e') \<Rightarrow> (self\<lparr>buffer := buffer self @ [r, r']\<rparr>, w3, Inl e')
         | (w3, Inr u) \<Rightarrow> (self\<lparr>buffer := []\<rparr>, w3, Inr ()))"
    unfolding s by (simp add: emit_locked_reached split: prod.splits sum.splits)
qed

theorem buffer_reset_only_after_completed_flush_witness:
  "buffer (after_self (emit sample_env (sample_handler (PyInt 1)) (rec_of ''a'') empty_world))
     = [rec_of ''a''] \<and>
   submitted (after_world (emit_locked (dispatch_flush sample_env)
      (after_self (emit sample_env (sample_handler (PyInt 1)) (rec_of ''a'') empty_world))
      (rec_of ''b'') empty_world)) = [[rec_of ''a'', rec_of ''b'']] \<and>
   buffer (after_self (emit_with (private_emit sample_env) (sample_handler (PyInt 1))
      (rec_of ''a'') empty_world)) = []"
proof -
  note A = buffer_reset_only_after_completed_flush
    [of "dispatch_flush sample_env" "sample_handler (PyInt 1)" "rec_of ''a''" empty_world
        TypeError "rec_of ''b''" empty_world]
  note B = buffer_reset_only_after_completed_flush
    [of "private_emit sample_env" "sample_handler (PyInt 1)" "rec_of ''a''" empty_world
        TypeError "rec_of ''b''" empty_world]
  show ?thesis
    using A B
    by (simp add: emit_def dispatch_flush_raises private_emit_sample)
qed

lemma emit_locked_handled:
  assumes "keeps_traces D"
  shows "handled (after_world (emit_locked D self r w)) = handled w"
proof (cases "len_ge (Suc (length (buffer self))) (buffer_size self)")
  case (Inl e)
  then show ?thesis by (simp add: emit_locked_error)
next
  case (Inr b)
  show ?thesis
  proof (cases b)
    case False
    with Inr show ?thesis by (simp add: emit_locked_below)
  next
    case True
    let ?h = "self\<lparr>buffer := buffer self @ [r]\<rparr>"
    let ?v = "w\<lparr>submitted := submitted w @ [buffer self @ [r]]\<rparr>"
    from io_frame_D[OF assms, of ?h ?v] have "handled (fst (D ?h ?v)) = handled w" by simp
    with Inr True show ?thesis
      by (cases "D ?h ?v") (auto simp: emit_locked_reached split: sum.splits)
  qed
qed

lemma dispatch_flush_keeps_traces: "keeps_traces (dispatch_flush E)"
  by (simp add: keeps_traces_def io_frame_def dispatch_flush_raises)

text \<open>
  Claim C2, as the code has it. When the dispatched flush fails with an exception the handler
  catches, \<^verbatim>\<open>emit\<close> returns normally and \<^verbatim>\<open>handleError\<close> is called once, with the
  record of this call; the records of the failed batch stay in the buffer, and the next call
  of \<^verbatim>\<open>emit\<close> submits them again, together with its own record.
\<close>

theorem failed_batch_kept_and_resubmitted:
  assumes reached: "len_ge (Suc (length (buffer self))) (buffer_size self) = Inr True"
    and failed: "snd (D (self\<lparr>buffer := buffer self @ [r]\<rparr>)
                        (w\<lparr>submitted := submitted w @ [buffer self @ [r]]\<rparr>)) = Inl e"
    and caught: "is_Exception e"
    and frame: "keeps_traces D"
  shows "outcome (emit_with D self r w) = Inr () \<and>
         handled (after_world (emit_with D self r w)) = handled w @ [r] \<and>
         buffer (after_self (emit_with D self r w)) = buffer self @ [r] \<and>
         submitted (after_world (emit_with D self r w)) = submitted w @ [buffer self @ [r]] \<and>
         submitted (after_world (emit_with D (after_self (emit_with D self r w)) r'
                                   (after_world (emit_with D self r w)))) =
           submitted w @ [buffer self @ [r], buffer self @ [r, r']]"
proof -
  let ?h = "self\<lparr>buffer := buffer self @ [r]\<rparr>"
  let ?v = "w\<lparr>submitted := submitted w @ [buffer self @ [r]]\<rparr>"
  obtain w1 where D: "D ?h ?v = (w1, Inl e)"
    using failed by (cases "D ?h ?v") auto
  have L: "emit_locked D self r w = (?h, w1, Inl e)"
    using reached D by (simp add: emit_locked_reached)
  have E: "emit_with D self r w = (?h, Handler_handleError r w1, Inr ())"
    using L caught by (rule emit_with_caught)
  have h1: "handled w1 = handled w"
    using emit_locked_handled[OF frame, of self r w] L by simp
  have s1: "submitted w1 = submitted w @ [buffer self @ [r]]"
    using io_frame_D[OF frame, of ?h ?v] D by simp
  have next_reached: "len_ge (Suc (length (buffer ?h))) (buffer_size ?h) = Inr True"
    using reached by (simp add: len_ge_mono)
  have "submitted (after_world (emit_with D ?h r' (Handler_handleError r w1))) =
          submitted (Handler_handleError r w1) @ [buffer ?h @ [r']]"
    using emit_with_traces[OF frame, of ?h r' "Handler_handleError r w1"] next_reached
    by simp
  then show ?thesis
    using E h1 s1 by (simp add: Handler_handleError_def)
qed

theorem failed_batch_kept_and_resubmitted_witness:
  "outcome (emit sample_env (sample_handler (PyInt 1)) (rec_of ''a'') empty_world) = Inr () \<and>
   handled (after_world (emit sample_env (sample_handler (PyInt 1)) (rec_of ''a'') empty_world))
     = [rec_of ''a''] \<and>
   buffer (after_self (emit sample_env (sample_handler (PyInt 1)) (rec_of ''a'') empty_world))
     = [rec_of ''a''] \<and>
   submitted (after_world
     (emit sample_env
        (after_self (emit sample_env (sample_handler (PyInt 1)) (rec_of ''a'') empty_world))
        (rec_of ''b'')
        (after_world (emit sample_env (sample_handler (PyInt 1)) (rec_of ''a'') empty_world))))
     = [[rec_of ''a''], [rec_of ''a'', rec_of ''b'']]"
proof -
  have "len_ge (Suc (length (buffer (sample_handler (PyInt 1)))))
          (buffer_size (sample_handler (PyInt 1))) = Inr True"
    by simp
  moreover have "snd (dispatch_flush sample_env
          (sample_handler (PyInt 1)\<lparr>buffer := buffer (sample_handler (PyInt 1)) @ [rec_of ''a'']\<rparr>)
          (empty_world\<lparr>submitted := submitted empty_world @
              [buffer (sample_handler (PyInt 1)) @ [rec_of ''a'']]\<rparr>)) = Inl TypeError"
    by (simp add: dispatch_flush_raises)
  moreover have "is_Exception TypeError" by simp
  ultimately show ?thesis
    using failed_batch_kept_and_resubmitted
      [of "sample_handler (PyInt 1)" "dispatch_flush sample_env" "rec_of ''a''" empty_world
          TypeError "rec_of ''b''", OF _ _ _ dispatch_flush_keeps_traces]
    by (simp add: emit_def)
qed

text \<open>
  The claim as stated fails on the code: with capacity 2, after the emits a and b the
  records of the failed batch are still in the buffer, and the emit of c submits them again.
\<close>

theorem failed_batch_lost_counterexample:
  "buffer (after_self (emit_all (dispatch_flush sample_env) (sample_handler (PyInt 2))
      [rec_of ''a'', rec_of ''b''] empty_world)) = [rec_of ''a'', rec_of ''b''] \<and>
   submitted (after_world (emit_all (dispatch_flush sample_env) (sample_handler (PyInt 2))
      [rec_of ''a'', rec_of ''b'', rec_of ''c''] empty_world)) =
     [[rec_of ''a'', rec_of ''b''], [rec_of ''a'', rec_of ''b'', rec_of ''c'']]"
  by (simp add: emit_def[symmetric] emit_actual Handler_handleError_def)

section \<open>Runs of \<^verbatim>\<open>emit\<close> whose flushes complete\<close>

text \<open>
  One call on a handler of integer capacity \<open>C\<close> whose flush completes and leaves the
  trace of submissions alone.
\<close>

lemma emit_with_completing_step:
  assumes bs: "buffer_size self = PyInt C"
    and ok: "\<And>b v. snd (D (self\<lparr>buffer := b\<rparr>) v) = Inr ()"
    and fr: "\<And>b v. submitted (fst (D (self\<lparr>buffer := b\<rparr>) v)) = submitted v"
  shows "\<exists>w'. emit_with D (self\<lparr>buffer := b\<rparr>) r w =
           (self\<lparr>buffer := (if C \<le> int (Suc (length b)) then [] else b @ [r])\<rparr>, w', Inr ()) \<and>
           submitted w' =
             (if C \<le> int (Suc (length b)) then submitted w @ [b @ [r]] else submitted w)"
proof (cases "C \<le> int (Suc (length b))")
  case False
  then have "len_ge (Suc (length (buffer (self\<lparr>buffer := b\<rparr>)))) (buffer_size (self\<lparr>buffer := b\<rparr>))
               = Inr False"
    by (simp add: bs)
  then have "emit_locked D (self\<lparr>buffer := b\<rparr>) r w = (self\<lparr>buffer := b @ [r]\<rparr>, w, Inr ())"
    by (simp add: emit_locked_below)
  with False show ?thesis by (simp add: emit_with_normal)
next
  case True
  let ?v = "w\<lparr>submitted := submitted w @ [b @ [r]]\<rparr>"
  obtain w' u where D: "D (self\<lparr>buffer := b @ [r]\<rparr>) ?v = (w', u)"
    by (cases "D (self\<lparr>buffer := b @ [r]\<rparr>) ?v")
  from ok[of "b @ [r]" ?v] D have u: "u = Inr ()" by simp
  from fr[of "b @ [r]" ?v] D have s: "submitted w' = submitted w @ [b @ [r]]" by simp
  from True
  have "len_ge (Suc (length (buffer (self\<lparr>buffer := b\<rparr>)))) (buffer_size (self\<lparr>buffer := b\<rparr>))
          = Inr True"
    by (simp add: bs)
  then have "emit_locked D (self\<lparr>buffer := b\<rparr>) r w = (self\<lparr>buffer := []\<rparr>, w', Inr ())"
    using D u by (simp add: emit_locked_reached)
  with True s show ?thesis by (simp add: emit_with_normal)
qed

lemma emit_all_completing:
  assumes bs: "buffer_size self = PyInt C" and C: "1 \<le> C"
    and ok: "\<And>b v. snd (D (self\<lparr>buffer := b\<rparr>) v) = Inr ()"
    and fr: "\<And>b v. submitted (fst (D (self\<lparr>buffer := b\<rparr>) v)) = submitted v"
  shows "int (length b) < C \<Longrightarrow>
     \<exists>b' w' new. emit_all D (self\<lparr>buffer := b\<rparr>) rs w = (self\<lparr>buffer := b'\<rparr>, w', Inr ()) \<and>
        int (length b') < C \<and> submitted w' = submitted w @ new \<and>
        concat new @ b' = b @ rs \<and> (\<forall>x\<in>set new. int (length x) = C) \<and>
        length new = (length b + length rs) div nat C \<and>
        length b' = (length b + length rs) mod nat C"
proof (induction rs arbitrary: b w)
  case Nil
  then have "length b < nat C" by linarith
  then show ?case by simp
next
  case (Cons r rs)
  have "\<exists>w'. emit_with D (self\<lparr>buffer := b\<rparr>) r w =
           (self\<lparr>buffer := (if C \<le> int (Suc (length b)) then [] else b @ [r])\<rparr>, w', Inr ()) \<and>
           submitted w' =
             (if C \<le> int (Suc (length b)) then submitted w @ [b @ [r]] else submitted w)"
    by (rule emit_with_completing_step) (rule bs, rule ok, rule fr)
  then obtain w1 where
    step: "emit_with D (self\<lparr>buffer := b\<rparr>) r w =
             (self\<lparr>buffer := (if C \<le> int (Suc (length b)) then [] else b @ [r])\<rparr>, w1, Inr ())"
    and sub: "submitted w1 =
             (if C \<le> int (Suc (length b)) then submitted w @ [b @ [r]] else submitted w)"
    by blast
  show ?case
  proof (cases "C \<le> int (Suc (length b))")
    case True
    with Cons.prems have len: "Suc (length b) = nat C" by linarith
    from C have "int (length ([]::logrecord list)) < C" by simp
    from Cons.IH[OF this, of w1]
    obtain b' w' new where
      run: "emit_all D (self\<lparr>buffer := []\<rparr>) rs w1 = (self\<lparr>buffer := b'\<rparr>, w', Inr ())"
      and inv: "int (length b') < C" "submitted w' = submitted w1 @ new"
        "concat new @ b' = [] @ rs" "\<forall>x\<in>set new. int (length x) = C"
        "length new = (length ([]::logrecord list) + length rs) div nat C"
        "length b' = (length ([]::logrecord list) + length rs) mod nat C"
      by blast
    have arith: "(length b + Suc (length rs)) div nat C = Suc (length rs div nat C)"
      "(length b + Suc (length rs)) mod nat C = length rs mod nat C"
    proof -
      have e: "length b + Suc (length rs) = nat C + length rs" using len by simp
      have p: "0 < nat C" using C by simp
      show "(length b + Suc (length rs)) div nat C = Suc (length rs div nat C)"
        unfolding e using p by simp
      show "(length b + Suc (length rs)) mod nat C = length rs mod nat C"
        unfolding e by simp
    qed
    have "emit_all D (self\<lparr>buffer := b\<rparr>) (r # rs) w = (self\<lparr>buffer := b'\<rparr>, w', Inr ())"
      using step run True by simp
    moreover have "submitted w' = submitted w @ ((b @ [r]) # new)"
      using inv(2) sub True by simp
    moreover have "concat ((b @ [r]) # new) @ b' = b @ r # rs"
      using inv(3) by simp
    moreover have "\<forall>x\<in>set ((b @ [r]) # new). int (length x) = C"
      using inv(4) len by auto
    moreover have "length ((b @ [r]) # new) = (length b + length (r # rs)) div nat C"
      using inv(5) arith by simp
    moreover have "length b' = (length b + length (r # rs)) mod nat C"
      using inv(6) arith by simp
    ultimately show ?thesis using inv(1) by blast
  next
    case False
    then have "int (length (b @ [r])) < C" by simp
    from Cons.IH[OF this, of w1]
    obtain b' w' new where
      run: "emit_all D (self\<lparr>buffer := b @ [r]\<rparr>) rs w1 = (self\<lparr>buffer := b'\<rparr>, w', Inr ())"
      and inv: "int (length b') < C" "submitted w' = submitted w1 @ new"
        "concat new @ b' = (b @ [r]) @ rs" "\<forall>x\<in>set new. int (length x) = C"
        "length new = (length (b @ [r]) + length rs) div nat C"
        "length b' = (length (b @ [r]) + length rs) mod nat C"
      by blast
    have "emit_all D (self\<lparr>buffer := b\<rparr>) (r # rs) w = (self\<lparr>buffer := b'\<rparr>, w', Inr ())"
      using step run False by simp
    moreover have "submitted w' = submitted w @ new" using inv(2) sub False by simp
    moreover have "concat new @ b' = b @ r # rs" using inv(3) by simp
    moreover have "length new = (length b + length (r # rs)) div nat C"
      using inv(5) by simp
    moreover have "length b' = (length b + length (r # rs)) mod nat C"
      using inv(6) by simp
    ultimately show ?thesis using inv(1) inv(4) by blast
  qed
qed

text \<open>
  With such a flush and an empty buffer at the start, \<open>N\<close> calls submit
  \<open>N div C\<close> batches and leave the last \<open>N mod C\<close> records in the buffer.
\<close>

lemma flush_count_while_flushes_complete:
  assumes bs: "buffer_size self = PyInt C" and C: "1 \<le> C" and empty: "buffer self = []"
    and ok: "\<And>b v. snd (D (self\<lparr>buffer := b\<rparr>) v) = Inr ()"
    and fr: "\<And>b v. submitted (fst (D (self\<lparr>buffer := b\<rparr>) v)) = submitted v"
  shows "length (submitted (after_world (emit_all D self rs w))) =
           length (submitted w) + length rs div nat C \<and>
         buffer (after_self (emit_all D self rs w)) =
           drop (length rs - length rs mod nat C) rs"
proof -
  have "\<exists>b' w' new. emit_all D (self\<lparr>buffer := []\<rparr>) rs w = (self\<lparr>buffer := b'\<rparr>, w', Inr ()) \<and>
        int (length b') < C \<and> submitted w' = submitted w @ new \<and>
        concat new @ b' = [] @ rs \<and> (\<forall>x\<in>set new. int (length x) = C) \<and>
        length new = (length ([]::logrecord list) + length rs) div nat C \<and>
        length b' = (length ([]::logrecord list) + length rs) mod nat C"
    by (rule emit_all_completing) (rule bs, rule C, rule ok, rule fr, use C in simp)
  then obtain b' w' new where
    run: "emit_all D (self\<lparr>buffer := []\<rparr>) rs w = (self\<lparr>buffer := b'\<rparr>, w', Inr ())"
    and sub: "submitted w' = submitted w @ new"
    and all: "concat new @ b' = rs"
    and cnt: "length new = length rs div nat C"
    and len: "length b' = length rs mod nat C"
    by auto
  have self: "self\<lparr>buffer := []\<rparr> = self" using empty by simp
  have "length (concat new) = length rs - length rs mod nat C"
    using all len by (metis add_diff_cancel_right' length_append)
  then have "drop (length rs - length rs mod nat C) rs = b'"
    using all by (metis append_eq_conv_conj)
  then show ?thesis using run sub cnt self by simp
qed

text \<open>
  Claim C4, as the code has it. On a handler of integer capacity \<open>C \<ge> 1\<close> whose
  buffer is shorter than \<open>C\<close>, as long as every dispatched flush completes (and leaves
  the trace of submissions alone), every run of \<^verbatim>\<open>emit\<close> calls returns normally with a
  buffer shorter than \<open>C\<close>; the batches submitted, in order, followed by the buffer are
  exactly the records that were in the buffer followed by the records emitted, and every
  batch has \<open>C\<close> records. The call whose append reaches the capacity submits the whole
  sequence and leaves the buffer empty. A call whose dispatched flush raises, whatever that
  flush is, leaves the old records and the new one in the buffer.
\<close>

theorem buffer_below_capacity_while_flushes_complete:
  assumes bs: "buffer_size self = PyInt C" and C: "1 \<le> C"
    and below: "int (length (buffer self)) < C"
    and completes: "\<forall>b v. snd (D (self\<lparr>buffer := b\<rparr>) v) = Inr () \<and>
                        submitted (fst (D (self\<lparr>buffer := b\<rparr>) v)) = submitted v"
  shows "outcome (emit_all D self rs w) = Inr () \<and>
         int (length (buffer (after_self (emit_all D self rs w)))) < C \<and>
         (\<exists>new. submitted (after_world (emit_all D self rs w)) = submitted w @ new \<and>
                concat new @ buffer (after_self (emit_all D self rs w)) = buffer self @ rs \<and>
                (\<forall>x\<in>set new. int (length x) = C)) \<and>
         (int (Suc (length (buffer self))) = C \<longrightarrow>
            buffer (after_self (emit_with D self r w)) = [] \<and>
            submitted (after_world (emit_with D self r w)) = submitted w @ [buffer self @ [r]]) \<and>
         (C \<le> int (Suc (length (buffer self))) \<and>
          snd (F (self\<lparr>buffer := buffer self @ [r]\<rparr>)
                 (w\<lparr>submitted := submitted w @ [buffer self @ [r]]\<rparr>)) = Inl e \<longrightarrow>
            buffer (after_self (emit_with F self r w)) = buffer self @ [r])"
proof -
  have ok: "\<And>b v. snd (D (self\<lparr>buffer := b\<rparr>) v) = Inr ()"
    and fr: "\<And>b v. submitted (fst (D (self\<lparr>buffer := b\<rparr>) v)) = submitted v"
    using completes by auto
  have self: "self\<lparr>buffer := buffer self\<rparr> = self" by simp
  have "\<exists>b' w' new. emit_all D (self\<lparr>buffer := buffer self\<rparr>) rs w = (self\<lparr>buffer := b'\<rparr>, w', Inr ()) \<and>
        int (length b') < C \<and> submitted w' = submitted w @ new \<and>
        concat new @ b' = buffer self @ rs \<and> (\<forall>x\<in>set new. int (length x) = C) \<and>
        length new = (length (buffer self) + length rs) div nat C \<and>
        length b' = (length (buffer self) + length rs) mod nat C"
    by (rule emit_all_completing) (rule bs, rule C, rule ok, rule fr, rule below)
  then obtain b' w' new where
    run: "emit_all D self rs w = (self\<lparr>buffer := b'\<rparr>, w', Inr ())"
    and inv: "int (length b') < C" "submitted w' = submitted w @ new"
      "concat new @ b' = buffer self @ rs" "\<forall>x\<in>set new. int (length x) = C"
    unfolding self by blast
  have "\<exists>w'. emit_with D (self\<lparr>buffer := buffer self\<rparr>) r w =
           (self\<lparr>buffer := (if C \<le> int (Suc (length (buffer self))) then []
                             else buffer self @ [r])\<rparr>, w', Inr ()) \<and>
           submitted w' =
             (if C \<le> int (Suc (length (buffer self))) then submitted w @ [buffer self @ [r]]
              else submitted w)"
    by (rule emit_with_completing_step) (rule bs, rule ok, rule fr)
  then have one: "int (Suc (length (buffer self))) = C \<longrightarrow>
            buffer (after_self (emit_with D self r w)) = [] \<and>
            submitted (after_world (emit_with D self r w)) = submitted w @ [buffer self @ [r]]"
    unfolding self by auto
  have kept: "C \<le> int (Suc (length (buffer self))) \<and>
          snd (F (self\<lparr>buffer := buffer self @ [r]\<rparr>)
                 (w\<lparr>submitted := submitted w @ [buffer self @ [r]]\<rparr>)) = Inl e \<longrightarrow>
            buffer (after_self (emit_with F self r w)) = buffer self @ [r]"
    by (simp add: emit_with_buffer emit_locked_buffer)
  from run inv one kept show ?thesis by auto
qed

theorem buffer_below_capacity_while_flushes_complete_witness:
  "outcome (emit_all (private_emit sample_env) (sample_handler (PyInt 2))
      [rec_of ''a'', rec_of ''b'', rec_of ''c''] empty_world) = Inr () \<and>
   int (length (buffer (after_self (emit_all (private_emit sample_env) (sample_handler (PyInt 2))
      [rec_of ''a'', rec_of ''b'', rec_of ''c''] empty_world)))) < 2 \<and>
   buffer (after_self (emit_with (private_emit sample_env)
      (sample_handler (PyInt 2)\<lparr>buffer := [rec_of ''a'']\<rparr>) (rec_of ''b'') empty_world)) = []"
proof -
  have hyp: "\<forall>b v. snd (private_emit sample_env (sample_handler (PyInt 2)\<lparr>buffer := b\<rparr>) v) = Inr () \<and>
      submitted (fst (private_emit sample_env (sample_handler (PyInt 2)\<lparr>buffer := b\<rparr>) v)) =
        submitted v"
    by (simp add: private_emit_sample)
  have hyp': "\<forall>b v. snd (private_emit sample_env
                 (sample_handler (PyInt 2)\<lparr>buffer := [rec_of ''a'']\<rparr>\<lparr>buffer := b\<rparr>) v) = Inr () \<and>
      submitted (fst (private_emit sample_env
                 (sample_handler (PyInt 2)\<lparr>buffer := [rec_of ''a'']\<rparr>\<lparr>buffer := b\<rparr>) v)) =
        submitted v"
    by (simp add: private_emit_sample)
  have A: "outcome (emit_all (private_emit sample_env) (sample_handler (PyInt 2))
      [rec_of ''a'', rec_of ''b'', rec_of ''c''] empty_world) = Inr () \<and>
   int (length (buffer (after_self (emit_all (private_emit sample_env) (sample_handler (PyInt 2))
      [rec_of ''a'', rec_of ''b'', rec_of ''c''] empty_world)))) < 2"
    using buffer_below_capacity_while_flushes_complete
      [of "sample_handler (PyInt 2)" 2 "private_emit sample_env"
          "[rec_of ''a'', rec_of ''b'', rec_of ''c'']" empty_world "rec_of ''a''", OF _ _ _ hyp]
    by simp
  have B: "buffer (after_self (emit_with (private_emit sample_env)
      (sample_handler (PyInt 2)\<lparr>buffer := [rec_of ''a'']\<rparr>) (rec_of ''b'') empty_world)) = []"
    using buffer_below_capacity_while_flushes_complete
      [of "sample_handler (PyInt 2)\<lparr>buffer := [rec_of ''a'']\<rparr>" 2 "private_emit sample_env"
          "[]" empty_world "rec_of ''b''", OF _ _ _ hyp']
    by simp
  from A B show ?thesis by simp
qed

text \<open>
  The invariant as stated fails on the code: with capacity 1, after one emit the buffer
  holds one record.
\<close>

theorem buffer_below_capacity_counterexample:
  "\<not> int (length (buffer (after_self
        (emit sample_env (sample_handler (PyInt 1)) (rec_of ''a'') empty_world)))) < 1"
  by (simp add: emit_actual)

text \<open>
  Claim C5 at capacity 2 with the emits a, b, c: the code dispatches a flush at b and again
  at c, both dispatched calls raise, \<^verbatim>\<open>handleError\<close> is called for b and for c, nothing
  is sent, and the buffer holds all three records.
\<close>

theorem three_emits_at_capacity_two:
  "emit_all (dispatch_flush sample_env) (sample_handler (PyInt 2))
     [rec_of ''a'', rec_of ''b'', rec_of ''c''] empty_world =
   (sample_handler (PyInt 2)\<lparr>buffer := [rec_of ''a'', rec_of ''b'', rec_of ''c'']\<rparr>,
    empty_world\<lparr>submitted := [[rec_of ''a'', rec_of ''b''],
                              [rec_of ''a'', rec_of ''b'', rec_of ''c'']],
                handled := [rec_of ''b'', rec_of ''c'']\<rparr>,
    Inr ())"
  by (simp add: emit_def[symmetric] emit_actual Handler_handleError_def)

section \<open>Properties of the delivery\<close>

lemma sent_append: "sent (xs @ ys) = sent xs @ sent ys"
  by (induction xs rule: sent.induct) simp_all

lemma quiet_return: "quiet (io_return x)"
  by (simp add: quiet_def io_return_def)

lemma quiet_lift: "quiet (io_lift r)"
  by (simp add: quiet_def io_lift_def)

lemma quiet_smtp_do: "sent [c] = [] \<Longrightarrow> quiet (smtp_do E c)"
  by (simp add: quiet_def smtp_do_def sent_append split: option.splits)

lemma quiet_bind:
  assumes "quiet c" and "\<And>x. quiet (k x)"
  shows "quiet (io_bind c k)"
proof (unfold quiet_def, rule allI)
  fix v
  obtain v1 res where c: "c v = (v1, res)" by (cases "c v")
  from assms(1) c have s1: "sent (smtp_log v1) = sent (smtp_log v)"
    by (auto simp: quiet_def dest: spec[of _ v])
  show "sent (smtp_log (fst (io_bind c k v))) = sent (smtp_log v)"
  proof (cases res)
    case (Inl e)
    with c s1 show ?thesis by (simp add: io_bind_def)
  next
    case (Inr x)
    from assms(2)[of x] have "sent (smtp_log (fst (k x v1))) = sent (smtp_log v1)"
      by (simp add: quiet_def)
    with c Inr s1 show ?thesis by (simp add: io_bind_def)
  qed
qed

lemma quiet_then: "quiet c \<Longrightarrow> quiet k \<Longrightarrow> quiet (io_then c k)"
  by (simp add: io_then_def quiet_bind)

lemma one_send_send_quit:
  "one_send m (io_then (smtp_do E (SMTP_send_message m)) (smtp_do E SMTP_quit))"
  by (simp add: one_send_def io_then_def io_bind_def smtp_do_def sent_append
           split: option.splits)

lemma quiet_handshake:
  "quiet (if truthy (username self) then
            io_then
              (if secure self \<noteq> PyNone then
                 io_then (smtp_do E SMTP_ehlo)
                (io_bind (io_lift (star_args (secure self))) (\<lambda>a.
                 io_then (smtp_do E (SMTP_starttls a)) (smtp_do E SMTP_ehlo)))
               else io_return ())
              (smtp_do E (SMTP_login (username self) (password self)))
          else io_return ())"
  by (simp add: quiet_then quiet_bind quiet_smtp_do quiet_lift quiet_return)

lemma quiet_header_set: "quiet (header_set E name v)"
  by (simp add: quiet_def header_set_def split: option.splits)

lemma sends_body_of_one_send: "one_send m c \<Longrightarrow> content m = b \<Longrightarrow> sends_body b c"
  by (auto simp: one_send_def sends_body_def)

lemma sends_body_bind:
  assumes "quiet c" and "\<And>x. sends_body b (k x)"
  shows "sends_body b (io_bind c k)"
proof (unfold sends_body_def, rule allI)
  fix v
  obtain v1 res where c: "c v = (v1, res)" by (cases "c v")
  from assms(1) c have s1: "sent (smtp_log v1) = sent (smtp_log v)"
    by (auto simp: quiet_def dest: spec[of _ v])
  show "(sent (smtp_log (fst (io_bind c k v))) = sent (smtp_log v) \<and>
           snd (io_bind c k v) \<noteq> Inr ()) \<or>
        (\<exists>m. content m = b \<and>
             sent (smtp_log (fst (io_bind c k v))) = sent (smtp_log v) @ [m])"
  proof (cases res)
    case (Inl e)
    with c s1 show ?thesis by (simp add: io_bind_def)
  next
    case (Inr x)
    from assms(2)[of x]
    have "(sent (smtp_log (fst (k x v1))) = sent (smtp_log v1) \<and> snd (k x v1) \<noteq> Inr ()) \<or>
          (\<exists>m. content m = b \<and> sent (smtp_log (fst (k x v1))) = sent (smtp_log v1) @ [m])"
      by (simp add: sends_body_def)
    with c Inr s1 show ?thesis by (simp add: io_bind_def)
  qed
qed

lemma sends_body_then: "quiet c \<Longrightarrow> sends_body b k \<Longrightarrow> sends_body b (io_then c k)"
  by (simp add: io_then_def sends_body_bind)

lemma private_emit_sends_body:
  "sends_body (join [CHR 0x0A] (map (format_record E (formatter self)) (buffer self)))
     (private_emit E self)"
  unfolding private_emit_def Let_def
  apply (rule sends_body_then)
   apply (rule quiet_smtp_do)
   apply simp
  apply (rule sends_body_then)
   apply (rule quiet_header_set)
  apply (rule sends_body_bind)
   apply (rule quiet_lift)
  apply (rule sends_body_then)
   apply (rule quiet_header_set)
  apply (rule sends_body_then)
   apply (rule quiet_header_set)
  apply (rule sends_body_then)
   apply (rule quiet_handshake)
  apply (rule sends_body_of_one_send)
   apply (rule one_send_send_quit)
  apply simp
  done

text \<open>
  Claim C6. A run of \<^verbatim>\<open>__emit\<close> sends at most one message, and exactly one when it
  returns; the body of that message is the formatted texts of the records in the buffer,
  in the order of the buffer, joined by the newline character. \<^verbatim>\<open>emit\<close> appends each
  record at the end of the buffer, so when the flush it dispatches is this delivery and it
  returns, the body is the join over the old records followed by the new one.
\<close>

theorem delivered_body_is_joined_records:
  "(\<exists>msgs. sent (smtp_log (fst (private_emit E self w))) = sent (smtp_log w) @ msgs \<and>
           length msgs \<le> 1 \<and>
           (snd (private_emit E self w) = Inr () \<longrightarrow> length msgs = 1) \<and>
           (\<forall>m\<in>set msgs.
              content m =
                join [CHR 0x0A] (map (format_record E (formatter self)) (buffer self)))) \<and>
   (len_ge (Suc (length (buffer self))) (buffer_size self) = Inr True \<and>
    outcome (emit_locked (private_emit E) self r w) = Inr () \<longrightarrow>
      map content (sent (smtp_log (after_world (emit_with (private_emit E) self r w)))) =
        map content (sent (smtp_log w)) @
          [join [CHR 0x0A] (map (format_record E (formatter self)) (buffer self @ [r]))])"
proof -
  have one: "\<exists>msgs. sent (smtp_log (fst (private_emit E h v))) = sent (smtp_log v) @ msgs \<and>
           length msgs \<le> 1 \<and>
           (snd (private_emit E h v) = Inr () \<longrightarrow> length msgs = 1) \<and>
           (\<forall>m\<in>set msgs.
              content m =
                join [CHR 0x0A] (map (format_record E (formatter h)) (buffer h)))" for h v
  proof -
    from private_emit_sends_body[of E h]
    have "(sent (smtp_log (fst (private_emit E h v))) = sent (smtp_log v) \<and>
             snd (private_emit E h v) \<noteq> Inr ()) \<or>
          (\<exists>m. content m = join [CHR 0x0A] (map (format_record E (formatter h)) (buffer h)) \<and>
               sent (smtp_log (fst (private_emit E h v))) = sent (smtp_log v) @ [m])"
      by (simp add: sends_body_def)
    then show ?thesis
    proof
      assume "sent (smtp_log (fst (private_emit E h v))) = sent (smtp_log v) \<and>
             snd (private_emit E h v) \<noteq> Inr ()"
      then show ?thesis by simp
    next
      assume "\<exists>m. content m = join [CHR 0x0A] (map (format_record E (formatter h)) (buffer h)) \<and>
               sent (smtp_log (fst (private_emit E h v))) = sent (smtp_log v) @ [m]"
      then obtain m where
        "content m = join [CHR 0x0A] (map (format_record E (formatter h)) (buffer h))"
        "sent (smtp_log (fst (private_emit E h v))) = sent (smtp_log v) @ [m]"
        by blast
      then show ?thesis by (intro exI[of _ "[m]"]) simp
    qed
  qed
  have two: "map content (sent (smtp_log (after_world (emit_with (private_emit E) self r w)))) =
        map content (sent (smtp_log w)) @
          [join [CHR 0x0A] (map (format_record E (formatter self)) (buffer self @ [r]))]"
    if reached: "len_ge (Suc (length (buffer self))) (buffer_size self) = Inr True"
      and ok: "outcome (emit_locked (private_emit E) self r w) = Inr ()"
  proof -
    let ?h = "self\<lparr>buffer := buffer self @ [r]\<rparr>"
    let ?v = "w\<lparr>submitted := submitted w @ [buffer self @ [r]]\<rparr>"
    obtain w' res where D: "private_emit E ?h ?v = (w', res)"
      by (cases "private_emit E ?h ?v")
    from reached ok D have res: "res = Inr ()"
      by (cases res) (simp_all add: emit_locked_reached)
    from one[of ?h ?v] D res
    obtain msgs where m: "sent (smtp_log w') = sent (smtp_log w) @ msgs" "length msgs = 1"
      "\<forall>m\<in>set msgs. content m =
          join [CHR 0x0A] (map (format_record E (formatter self)) (buffer self @ [r]))"
      by auto
    then obtain x where "msgs = [x]" by (cases msgs) auto
    with m have "map content (sent (smtp_log w')) = map content (sent (smtp_log w)) @
          [join [CHR 0x0A] (map (format_record E (formatter self)) (buffer self @ [r]))]"
      by simp
    moreover have "emit_with (private_emit E) self r w = (self\<lparr>buffer := []\<rparr>, w', Inr ())"
      using reached D res by (simp add: emit_with_def emit_locked_reached)
    ultimately show ?thesis by simp
  qed
  from one[of self w] two show ?thesis by blast
qed

theorem delivered_body_is_joined_records_witness:
  "map content (sent (smtp_log (after_world
      (emit_with (private_emit sample_env)
         (sample_handler (PyInt 2)\<lparr>buffer := [rec_of ''a'']\<rparr>) (rec_of ''b'') empty_world)))) =
     [''a'' @ [CHR 0x0A] @ ''b'']"
proof -
  have "outcome (emit_locked (private_emit sample_env)
          (sample_handler (PyInt 2)\<lparr>buffer := [rec_of ''a'']\<rparr>) (rec_of ''b'') empty_world)
        = Inr ()"
    by (simp add: emit_locked_reached private_emit_sample)
  then show ?thesis
    using delivered_body_is_joined_records
      [of sample_env "sample_handler (PyInt 2)\<lparr>buffer := [rec_of ''a'']\<rparr>" empty_world
          "rec_of ''b''"]
    by (simp add: sample_env_def sample_handler_def rec_of_def)
qed

section \<open>Properties of the construction and of the facade\<close>

lemma bind_exn_simps [simp]:
  "bind_exn (Inl e) k = Inl e" "bind_exn (Inr x) k = k x"
  by (simp_all add: bind_exn_def)

lemma isl_bind_exn: "isl (bind_exn m k) = (case m of Inl e \<Rightarrow> True | Inr x \<Rightarrow> isl (k x))"
  by (cases m) simp_all

lemma InovatSMTPHandler_init_raises:
  "InovatSMTPHandler_init args kw =
     Inl (case SMTPHandler_init (InovatSMTPHandler_init_args args kw) of
            Inl e \<Rightarrow> e | Inr base \<Rightarrow> TypeError)"
  by (cases "SMTPHandler_init (InovatSMTPHandler_init_args args kw)")
     (simp_all add: InovatSMTPHandler_init_def class_setitem_def Let_def)

lemma configure_handler_raises: "isl (configure_handler E c)"
  unfolding configure_handler_def
  by (simp add: isl_bind_exn InovatSMTPHandler_init_raises split: sum.splits)

lemma configure_try_raises:
  "isl (outcome (configure_try E self w)) \<and> after_world (configure_try E self w) = w \<and>
   configuration_attr (after_self (configure_try E self w)) = configuration_attr self"
proof (cases "bind_exn (getattr (configuration_attr self) ''name'') logging_getLogger")
  case (Inl e)
  then show ?thesis by (simp add: configure_try_def)
next
  case (Inr lg)
  obtain e where "configure_handler E (configuration_attr self) = Inl e"
    using configure_handler_raises[of E "configuration_attr self"]
    by (cases "configure_handler E (configuration_attr self)") auto
  with Inr show ?thesis by (simp add: configure_try_def Let_def)
qed

lemma SMTPLogger_configure_raises:
  "isl (outcome (SMTPLogger_configure E self w)) \<and>
   after_world (SMTPLogger_configure E self w) = w \<and>
   configuration_attr (after_self (SMTPLogger_configure E self w)) = configuration_attr self"
proof -
  obtain s v res where t: "configure_try E self w = (s, v, res)"
    by (cases "configure_try E self w")
  with configure_try_raises[of E self w] show ?thesis
    by (cases res) (simp_all add: SMTPLogger_configure_def)
qed

text \<open>
  Claim C3, as the code has it. For every argument list and keyword dictionary the
  constructor raises: the exception of the base class's initialiser if that one raised,
  and otherwise the \<^verbatim>\<open>TypeError\<close> of the item assignment of line 99. Every call of
  \<^verbatim>\<open>configure\<close> therefore raises and leaves the world as it was: no handler is ever
  added to a logger.
\<close>

theorem constructor_and_configure_always_raise:
  "InovatSMTPHandler_init args kw =
     Inl (case SMTPHandler_init (InovatSMTPHandler_init_args args kw) of
            Inl e \<Rightarrow> e | Inr base \<Rightarrow> TypeError) \<and>
   isl (outcome (SMTPLogger_configure E self w)) \<and>
   after_world (SMTPLogger_configure E self w) = w \<and>
   attached (after_world (SMTPLogger_configure E self w)) = attached w"
  using InovatSMTPHandler_init_raises[of args kw] SMTPLogger_configure_raises[of E self w]
  by simp

theorem constructor_and_configure_always_raise_witness:
  "InovatSMTPHandler_init []
     [''mailhost'' \<mapsto> PyStr ''mx.example.com'', ''buffer_size'' \<mapsto> PyInt 10] = Inl TypeError \<and>
   isl (outcome (SMTPLogger_configure sample_env (BaseLogger_init (sample_config 10)) empty_world)) \<and>
   attached (after_world
     (SMTPLogger_configure sample_env (BaseLogger_init (sample_config 10)) empty_world)) = []"
  using constructor_and_configure_always_raise
    [of "[]" "[''mailhost'' \<mapsto> PyStr ''mx.example.com'', ''buffer_size'' \<mapsto> PyInt 10]"
        sample_env "BaseLogger_init (sample_config 10)" empty_world]
  by (simp add: SMTPHandler_init_def InovatSMTPHandler_init_args_def arg_or_kwarg_def
        kwargs_get_def)

lemma sample_config_name: "sample_config c ''name'' = Some (PyStr ''app'')"
  by (simp add: sample_config_def)

text \<open>
  The last part of the claim as stated fails on the code: with a configuration named
  \<^verbatim>\<open>app\<close>, \<^verbatim>\<open>configure\<close> raises and the facade is configured all the same, since
  \<^verbatim>\<open>_logger\<close> was assigned before the handler was built.
\<close>

theorem configured_after_failed_configure_counterexample:
  "outcome (SMTPLogger_configure sample_env (BaseLogger_init (sample_config 10)) empty_world)
     = Inl PlainException \<and>
   configured (after_self
     (SMTPLogger_configure sample_env (BaseLogger_init (sample_config 10)) empty_world))"
proof -
  let ?f = "BaseLogger_init (sample_config 10)"
  have n: "bind_exn (getattr (configuration_attr ?f) ''name'') logging_getLogger = Inr ''app''"
    by (simp add: BaseLogger_init_def getattr_def sample_config_name logging_getLogger_def)
  obtain e where h: "configure_handler sample_env (configuration_attr ?f) = Inl e"
    using configure_handler_raises[of sample_env "configuration_attr ?f"]
    by (cases "configure_handler sample_env (configuration_attr ?f)") auto
  have "configure_handler sample_env (sample_config 10) = Inl TypeError"
    by (simp add: configure_handler_def getattr_def sample_config_def Formatter_new_def
          sample_env_def InovatSMTPHandler_init_raises SMTPHandler_init_def
          InovatSMTPHandler_init_args_def arg_or_kwarg_def kwargs_get_def)
  with h have e: "e = TypeError" by (simp add: BaseLogger_init_def)
  from n h e show ?thesis
    by (simp add: SMTPLogger_configure_def configure_try_def Let_def configured_def)
qed







lemma configure_handler_buffer_size:
  "configure_handler E (c(''buffer_size'' \<mapsto> v)) =
   configure_handler E (c(''buffer_size'' \<mapsto> v'))"
  unfolding configure_handler_def
  by (simp add: getattr_def InovatSMTPHandler_init_raises InovatSMTPHandler_init_args_def
        arg_or_kwarg_def kwargs_get_def)

text \<open>
  Claim C9, as the code has it. Nothing checks the capacity. The constructor's result and
  the outcome of \<^verbatim>\<open>configure\<close> are the same whatever value \<^verbatim>\<open>buffer_size\<close> has,
  and on a handler whose capacity is zero or negative \<^verbatim>\<open>emit\<close> appends the record as
  on any other and dispatches a flush on every call.
\<close>

theorem capacity_is_never_validated:
  "(buffer_size self = PyInt c \<and> c \<le> 0 \<longrightarrow>
      buffer (after_self (emit E self r w)) = buffer self @ [r] \<and>
      submitted (after_world (emit E self r w)) = submitted w @ [buffer self @ [r]]) \<and>
   InovatSMTPHandler_init args (kw(''buffer_size'' \<mapsto> v)) =
     InovatSMTPHandler_init args (kw(''buffer_size'' \<mapsto> v')) \<and>
   outcome (SMTPLogger_configure E
              (f\<lparr>configuration_attr := (configuration_attr f)(''buffer_size'' \<mapsto> v)\<rparr>) w) =
   outcome (SMTPLogger_configure E
              (f\<lparr>configuration_attr := (configuration_attr f)(''buffer_size'' \<mapsto> v')\<rparr>) w)"
proof (intro conjI impI)
  assume "buffer_size self = PyInt c \<and> c \<le> 0"
  then have "len_ge (Suc (length (buffer self))) (buffer_size self) = Inr True" by simp
  then show "buffer (after_self (emit E self r w)) = buffer self @ [r]"
    "submitted (after_world (emit E self r w)) = submitted w @ [buffer self @ [r]]"
    by (simp_all add: emit_actual Handler_handleError_def)
next
  show "InovatSMTPHandler_init args (kw(''buffer_size'' \<mapsto> v)) =
     InovatSMTPHandler_init args (kw(''buffer_size'' \<mapsto> v'))"
    by (simp add: InovatSMTPHandler_init_raises InovatSMTPHandler_init_args_def
          arg_or_kwarg_def kwargs_get_def)
next
  show "outcome (SMTPLogger_configure E
              (f\<lparr>configuration_attr := (configuration_attr f)(''buffer_size'' \<mapsto> v)\<rparr>) w) =
   outcome (SMTPLogger_configure E
              (f\<lparr>configuration_attr := (configuration_attr f)(''buffer_size'' \<mapsto> v')\<rparr>) w)"
    by (simp add: SMTPLogger_configure_def configure_try_def Let_def getattr_def
          configure_handler_buffer_size[of E "configuration_attr f" v v']
        split: sum.splits)
qed

theorem capacity_is_never_validated_witness:
  "buffer (after_self (emit sample_env (sample_handler (PyInt (- 1))) (rec_of ''a'') empty_world))
     = [rec_of ''a''] \<and>
   submitted (after_world
     (emit sample_env (sample_handler (PyInt (- 1))) (rec_of ''a'') empty_world))
     = [[rec_of ''a'']] \<and>
   InovatSMTPHandler_init [] [''buffer_size'' \<mapsto> PyInt 0] =
     InovatSMTPHandler_init [] [''buffer_size'' \<mapsto> PyInt 10]"
  using capacity_is_never_validated
    [of "sample_handler (PyInt (- 1))" "- 1" sample_env "rec_of ''a''" empty_world
        "[]" Map.empty "PyInt 0" "PyInt 10"]
  by simp

text \<open>
  The claim as stated fails on the code: on a handler of capacity 0 the record is appended.
\<close>

theorem record_buffered_at_capacity_zero_counterexample:
  "buffer (after_self (emit sample_env (sample_handler (PyInt 0)) (rec_of ''a'') empty_world))
     = [rec_of ''a'']"
  by (simp add: emit_actual)

text \<open>
  Claim C10 at the keyword arguments \<^verbatim>\<open>mailhost="smtp.example.com", timeout=3.0\<close>, the
  way \<^verbatim>\<open>configure\<close> passes them: line 82 reads the key \<^verbatim>\<open>"maihost"\<close>, so the base
  class receives the default host, the empty string, and the delivery opens its connection
  with that host (and with the configured timeout) instead of the configured one.
\<close>

theorem mailhost_keyword_is_ignored:
  "arg_mailhost (InovatSMTPHandler_init_args []
      [''mailhost'' \<mapsto> PyStr ''smtp.example.com'', ''timeout'' \<mapsto> PyFloat 3]) = PyStr '''' \<and>
   (case SMTPHandler_init (InovatSMTPHandler_init_args []
            [''mailhost'' \<mapsto> PyStr ''smtp.example.com'', ''timeout'' \<mapsto> PyFloat 3]) of
      Inl e \<Rightarrow> False
    | Inr base \<Rightarrow>
        mailhost base = PyStr '''' \<and>
        take 1 (smtp_log (fst (private_emit sample_env
                  (smtp_handler.extend base \<lparr>buffer_size = PyInt 10, buffer = [rec_of ''a'']\<rparr>)
                  empty_world))) =
          [SMTP_open (PyStr '''') (PyInt 25) (PyFloat 3)])"
  by (simp add: InovatSMTPHandler_init_args_def arg_or_kwarg_def kwargs_get_def
        SMTPHandler_init_def smtp_handler.extend_def private_emit_def sample_env_def
        io_then_def io_bind_def io_lift_def io_return_def smtp_do_def header_set_def)

end
